theory Spec2Isabelle
  imports Main "HOL-Library.Sublist" "HOL-Library.AList"
begin

section \<open>JavaScript values and built-ins used by gerrit.js\<close>

text \<open>
  The model follows \<^verbatim>\<open>src/gerrit.js\<close>. A JavaScript string is a \<^typ>\<open>string\<close>
  (code units below 256), a JSON number that Gerrit sends as an integer is an \<^typ>\<open>int\<close>,
  an optional JSON property is an \<^typ>\<open>'a option\<close> (\<^term>\<open>None\<close> for \<^verbatim>\<open>undefined\<close>).
  A trailing underscore of a JavaScript member (\<^verbatim>\<open>json_\<close>, \<^verbatim>\<open>tag_\<close>) is written as a
  prime, and the leading underscore of \<^verbatim>\<open>_account_id\<close> and \<^verbatim>\<open>_number\<close> is dropped.
\<close>

datatype error = TypeError

text \<open>
  The numbers \<^verbatim>\<open>parseInt\<close> returns: an integer that is a double, \<^verbatim>\<open>NaN\<close>,
  \<^verbatim>\<open>Infinity\<close> or \<^verbatim>\<open>-Infinity\<close>.
\<close>

datatype jsnum = NaN | Num int | PosInfinity | NegInfinity

text \<open>\<^verbatim>\<open>a <= b\<close> and \<^verbatim>\<open>a == b\<close> on numbers: false as soon as one side is \<^verbatim>\<open>NaN\<close>.\<close>

fun js_le :: "jsnum \<Rightarrow> jsnum \<Rightarrow> bool" where
  "js_le NaN _ = False"
| "js_le _ NaN = False"
| "js_le NegInfinity _ = True"
| "js_le _ PosInfinity = True"
| "js_le (Num a) (Num b) = (a \<le> b)"
| "js_le _ _ = False"

fun js_eq :: "jsnum \<Rightarrow> jsnum \<Rightarrow> bool" where
  "js_eq (Num a) (Num b) = (a = b)"
| "js_eq PosInfinity PosInfinity = True"
| "js_eq NegInfinity NegInfinity = True"
| "js_eq _ _ = False"

text \<open>\<^verbatim>\<open>xs[i]\<close>: \<^verbatim>\<open>undefined\<close> outside the array.\<close>

definition js_index :: "'a list \<Rightarrow> int \<Rightarrow> 'a option" where
  "js_index xs i = (if 0 \<le> i \<and> i < int (length xs) then Some (xs ! nat i) else None)"

text \<open>\<^verbatim>\<open>s.startsWith(p)\<close>.\<close>

definition startsWith :: "string \<Rightarrow> string \<Rightarrow> bool" where
  "startsWith s p = (take (length p) s = p)"

text \<open>\<^verbatim>\<open>s.split(sep)\<close> for a separator of one character: never the empty array.\<close>

fun js_split :: "char \<Rightarrow> string \<Rightarrow> string list" where
  "js_split sep [] = [[]]"
| "js_split sep (c # cs) =
     (if c = sep then [] # js_split sep cs
      else (case js_split sep cs of
              [] \<Rightarrow> [[c]]
            | p # ps \<Rightarrow> (c # p) # ps))"

text \<open>\<^verbatim>\<open>xs.join(sep)\<close> for a separator of one character.\<close>

fun js_join :: "char \<Rightarrow> string list \<Rightarrow> string" where
  "js_join sep [] = []"
| "js_join sep [x] = x"
| "js_join sep (x # y # ys) = x @ sep # js_join sep (y # ys)"

text \<open>
  \<^verbatim>\<open>parseInt(s)\<close> with no radix: leading white space is skipped, a sign is read, a
  prefix \<^verbatim>\<open>0x\<close> selects radix 16, the longest run of digits is the value and what
  follows is ignored; no digit at all gives \<^verbatim>\<open>NaN\<close>. The value of the digits is
  rounded to the nearest double, a tie to the even one, and is infinite when the
  rounded value reaches \<open>2^1024\<close>: \<open>to_double\<close> gives the double of a natural
  number, \<^term>\<open>None\<close> for the infinite one. (The standard lets an implementation
  replace the decimal digits after the twentieth by zeros; the digits are kept here.)
\<close>

fun bit_length :: "nat \<Rightarrow> nat" where
  "bit_length n = (if n = 0 then 0 else Suc (bit_length (n div 2)))"

declare bit_length.simps [simp del]

definition to_double :: "nat \<Rightarrow> nat option" where
  "to_double n =
     (if bit_length n \<le> 53 then Some n
      else
        let e = bit_length n - 53;
            q = n div 2 ^ e;
            r = n mod 2 ^ e;
            q1 = (if 2 * r > 2 ^ e \<or> (2 * r = 2 ^ e \<and> odd q) then q + 1 else q)
        in if q1 * 2 ^ e \<ge> 2 ^ 1024 then None else Some (q1 * 2 ^ e))"

definition isWhiteSpace :: "char \<Rightarrow> bool" where
  "isWhiteSpace c =
     (c \<in> set [CHR 0x09, CHR 0x0A, CHR 0x0B, CHR 0x0C, CHR 0x0D, CHR 0x20, CHR 0xA0])"

definition digitValue :: "char \<Rightarrow> nat option" where
  "digitValue c =
     (let n = (of_char c :: nat) in
      if 48 \<le> n \<and> n \<le> 57 then Some (n - 48)
      else if 97 \<le> n \<and> n \<le> 102 then Some (n - 87)
      else if 65 \<le> n \<and> n \<le> 70 then Some (n - 55)
      else None)"

definition radixDigit :: "nat \<Rightarrow> char \<Rightarrow> nat option" where
  "radixDigit R c =
     (case digitValue c of
        None \<Rightarrow> None
      | Some d \<Rightarrow> if d < R then Some d else None)"

fun digitsValue :: "nat \<Rightarrow> nat \<Rightarrow> string \<Rightarrow> nat" where
  "digitsValue R acc [] = acc"
| "digitsValue R acc (c # cs) =
     (case radixDigit R c of
        None \<Rightarrow> acc
      | Some d \<Rightarrow> digitsValue R (acc * R + d) cs)"

definition parseInt :: "string \<Rightarrow> jsnum" where
  "parseInt s =
     (let S = dropWhile isWhiteSpace s;
          sign = (if S \<noteq> [] \<and> hd S = CHR ''-'' then - 1 else (1::int));
          S1 = (if S \<noteq> [] \<and> (hd S = CHR ''+'' \<or> hd S = CHR ''-'') then tl S else S);
          hex = (take 2 S1 = ''0x'' \<or> take 2 S1 = ''0X'');
          R = (if hex then 16 else 10);
          S2 = (if hex then drop 2 S1 else S1);
          Z = takeWhile (\<lambda>c. radixDigit R c \<noteq> None) S2
      in if Z = [] then NaN
         else (case to_double (digitsValue R 0 Z) of
                 None \<Rightarrow> if sign < 0 then NegInfinity else PosInfinity
               | Some v \<Rightarrow> Num (sign * int v)))"

section \<open>The JSON that Gerrit returns\<close>

text \<open>
  The properties that the modelled methods read, and the \<^verbatim>\<open>tag\<close> of a message: Gerrit
  sends the tag of a message as \<^verbatim>\<open>tag\<close>, and the source reads \<^verbatim>\<open>tag_\<close> (here
  \<open>tag'\<close>), which no message of Gerrit carries. Optional here are the properties the
  source guards against being absent (\<^verbatim>\<open>tag_\<close>, \<^verbatim>\<open>stars\<close>, the \<^verbatim>\<open>Code-Review\<close>
  label and its \<^verbatim>\<open>all\<close>, \<^verbatim>\<open>_account_id\<close>, \<^verbatim>\<open>value\<close>) and those Gerrit may leave
  out (\<^verbatim>\<open>tag\<close>, \<^verbatim>\<open>real_author\<close>); the current revision may be missing from
  \<^verbatim>\<open>revisions\<close>. An \<^verbatim>\<open>AccountInfo\<close> is compared
  by \<^verbatim>\<open>_account_id\<close>; an entry of a label's \<^verbatim>\<open>all\<close> list is an account with a
  \<^verbatim>\<open>value\<close> (here \<open>vote\<close>). The \<^verbatim>\<open>date\<close> of a message stands for the instant that
  \<^verbatim>\<open>new Date(date + " UTC")\<close> denotes, in milliseconds. Gerrit numbers the patch sets
  of a change from 1, so \<^verbatim>\<open>_number\<close> is a \<^typ>\<open>nat\<close>; the loop over the stars starts
  from \<open>-1\<close> as below every patch-set number.
\<close>

record account =
  account_id :: "int option"

record approval = account +
  vote :: "int option"

record label_info =
  all_votes :: "approval list option"

record message_json =
  tag :: "string option"
  tag' :: "string option"
  real_author :: "account option"
  date :: int

record revision_json =
  number :: nat

record change_json =
  owner :: account
  submittable :: bool
  unresolved_comment_count :: int
  work_in_progress :: bool
  labels :: "string \<rightharpoonup> label_info"
  messages :: "message_json list"
  stars :: "string list option"
  revisions :: "string \<rightharpoonup> revision_json"
  current_revision :: string

section \<open>Message\<close>

text \<open>A \<^verbatim>\<open>Message\<close> wraps its JSON and has no other member.\<close>

type_synonym Message = message_json

definition Message_wrap :: "message_json \<Rightarrow> Message" where
  "Message_wrap json = json"

text \<open>
  \<^verbatim>\<open>shouldBeIgnored\<close> reads the property \<^verbatim>\<open>tag_\<close> of the JSON. \<^verbatim>\<open>!tag\<close> holds
  for a missing tag and for the empty string.
\<close>

definition shouldBeIgnored :: "Message \<Rightarrow> bool" where
  "shouldBeIgnored m =
     (case tag' m of
        None \<Rightarrow> False
      | Some t \<Rightarrow>
          if t = [] then False
          else if \<not> startsWith t ''autogenerated:'' then False
          else if t = ''autogenerated:gerrit:newPatchSet'' then False
          else if t = ''autogenerated:gerrit:newWipPatchSet'' then False
          else True)"

text \<open>
  \<^verbatim>\<open>isAuthoredBy\<close> reads \<^verbatim>\<open>real_author._account_id\<close> and throws a \<^verbatim>\<open>TypeError\<close> on
  a message without \<^verbatim>\<open>real_author\<close>.
\<close>

definition isAuthoredBy :: "Message \<Rightarrow> account \<Rightarrow> error + bool" where
  "isAuthoredBy m user =
     (case real_author m of
        None \<Rightarrow> Inl TypeError
      | Some author \<Rightarrow> Inr (account_id author = account_id user))"

definition getTime :: "Message \<Rightarrow> int" where
  "getTime m = date m"

section \<open>Revision\<close>

text \<open>
  \<^verbatim>\<open>new Revision(json)\<close> keeps what it is given, also \<^verbatim>\<open>undefined\<close>;
  \<^verbatim>\<open>getNumber\<close> then throws a \<^verbatim>\<open>TypeError\<close>.
\<close>

datatype Revision = Revision "revision_json option"

fun Revision_getNumber :: "Revision \<Rightarrow> error + nat" where
  "Revision_getNumber (Revision None) = Inl TypeError"
| "Revision_getNumber (Revision (Some json)) = Inr (number json)"

section \<open>Changelist\<close>

text \<open>
  A \<^verbatim>\<open>Changelist\<close> object: the host, the JSON and the caches that
  \<^verbatim>\<open>getReviewers\<close>, \<^verbatim>\<open>getMessages\<close> and \<^verbatim>\<open>getCurrentRevision\<close> fill on their
  first call (\<^term>\<open>None\<close> is \<^verbatim>\<open>null\<close>). A method that may fill a cache returns the
  object with its result. The description cache and the methods on sizes, URLs and
  descriptions of a change are not modelled.
\<close>

record Changelist =
  host' :: string
  json' :: change_json
  reviewers' :: "approval list option"
  messages' :: "Message list option"
  current_revision' :: "Revision option"

definition Changelist_wrap :: "string \<Rightarrow> change_json \<Rightarrow> Changelist" where
  "Changelist_wrap host json =
     \<lparr>host' = host, json' = json, reviewers' = None, messages' = None,
      current_revision' = None\<rparr>"

datatype Category =
  NONE | STALE | NO_REVIEWERS | WIP | INCOMING_NEEDS_ATTENTION
  | OUTGOING_NEEDS_ATTENTION | READY_TO_SUBMIT

definition isOwner :: "Changelist \<Rightarrow> account \<Rightarrow> bool" where
  "isOwner cl user = (account_id (owner (json' cl)) = account_id user)"

definition isSubmittable :: "Changelist \<Rightarrow> bool" where
  "isSubmittable cl = submittable (json' cl)"

definition hasUnresolvedComments :: "Changelist \<Rightarrow> bool" where
  "hasUnresolvedComments cl = (unresolved_comment_count (json' cl) \<noteq> 0)"

definition isWorkInProgress :: "Changelist \<Rightarrow> bool" where
  "isWorkInProgress cl = (work_in_progress (json' cl) = True)"

text \<open>\<^verbatim>\<open>!!reviewer._account_id\<close>: the identifier is there and is not 0.\<close>

definition truthy_id :: "int option \<Rightarrow> bool" where
  "truthy_id i = (case i of None \<Rightarrow> False | Some n \<Rightarrow> n \<noteq> 0)"

definition filterReviewers :: "Changelist \<Rightarrow> (approval \<Rightarrow> bool) \<Rightarrow> approval list" where
  "filterReviewers cl filter_fn =
     (let codeReviewLabel = labels (json' cl) ''Code-Review'';
          entries = (case codeReviewLabel of
                       None \<Rightarrow> []
                     | Some l \<Rightarrow> (case all_votes l of None \<Rightarrow> [] | Some rs \<Rightarrow> rs))
      in filter (\<lambda>reviewer. truthy_id (account_id reviewer) \<and> filter_fn reviewer) entries)"

text \<open>\<^verbatim>\<open>reviewer.value > 0\<close> is false for a missing value.\<close>

definition positive_vote :: "approval \<Rightarrow> bool" where
  "positive_vote reviewer = (case vote reviewer of None \<Rightarrow> False | Some v \<Rightarrow> v > 0)"

definition hasReviewed :: "Changelist \<Rightarrow> account \<Rightarrow> bool" where
  "hasReviewed cl user =
     (length (filterReviewers cl
        (\<lambda>reviewer. positive_vote reviewer \<and> account_id reviewer = account_id user)) \<noteq> 0)"

definition getReviewers :: "Changelist \<Rightarrow> approval list \<times> Changelist" where
  "getReviewers cl =
     (case reviewers' cl of
        None \<Rightarrow>
          (let rs = filterReviewers cl
                      (\<lambda>reviewer. account_id reviewer \<noteq> account_id (owner (json' cl)))
           in (rs, cl\<lparr>reviewers' := Some rs\<rparr>))
      | Some rs \<Rightarrow> (rs, cl))"

definition getMessages :: "Changelist \<Rightarrow> Message list \<times> Changelist" where
  "getMessages cl =
     (case messages' cl of
        None \<Rightarrow>
          (let ms = map Message_wrap (messages (json' cl))
           in (ms, cl\<lparr>messages' := Some ms\<rparr>))
      | Some ms \<Rightarrow> (ms, cl))"

definition getStars :: "Changelist \<Rightarrow> string list" where
  "getStars cl = (case stars (json' cl) of None \<Rightarrow> [] | Some ss \<Rightarrow> ss)"

definition getCurrentRevision :: "Changelist \<Rightarrow> Revision \<times> Changelist" where
  "getCurrentRevision cl =
     (case current_revision' cl of
        None \<Rightarrow>
          (let r = Revision (revisions (json' cl) (current_revision (json' cl)))
           in (r, cl\<lparr>current_revision' := Some r\<rparr>))
      | Some r \<Rightarrow> (r, cl))"

text \<open>
  \<^verbatim>\<open>isStale\<close>; the argument \<open>now\<close> is what \<^verbatim>\<open>new Date().getTime()\<close> reads from
  the clock.
\<close>

definition isStale :: "int \<Rightarrow> Changelist \<Rightarrow> bool \<times> Changelist" where
  "isStale now cl =
     (let (allMessages, cl1) = getMessages cl;
          filteredMessages = filter (\<lambda>message. \<not> shouldBeIgnored message) allMessages
      in case js_index filteredMessages (int (length filteredMessages) - 1) of
           Some lastMessage \<Rightarrow> (now - getTime lastMessage > 1000 * 3600 * 24, cl1)
         | None \<Rightarrow>
             (case js_index allMessages (int (length allMessages) - 1) of
                None \<Rightarrow> (True, cl1)
              | Some lastMessage \<Rightarrow> (now - getTime lastMessage > 1000 * 3600 * 24, cl1)))"

text \<open>
  \<^verbatim>\<open>xs.filter(f)\<close> for a callback that may throw: the first exception ends the
  filter. The callback of \<^verbatim>\<open>authorCommentedAfterUser\<close> asks for the author of every
  message that is not ignored; \<^verbatim>\<open>a || b\<close> evaluates \<open>b\<close> only when \<open>a\<close> is false.
\<close>

fun js_filter :: "('a \<Rightarrow> error + bool) \<Rightarrow> 'a list \<Rightarrow> error + 'a list" where
  "js_filter f [] = Inr []"
| "js_filter f (x # xs) =
     (case f x of
        Inl e \<Rightarrow> Inl e
      | Inr keep \<Rightarrow>
          (case js_filter f xs of
             Inl e \<Rightarrow> Inl e
           | Inr ys \<Rightarrow> Inr (if keep then x # ys else ys)))"

definition authoredByEither :: "account \<Rightarrow> account \<Rightarrow> Message \<Rightarrow> error + bool" where
  "authoredByEither user owner_account message =
     (if shouldBeIgnored message then Inr False
      else (case isAuthoredBy message user of
              Inl e \<Rightarrow> Inl e
            | Inr True \<Rightarrow> Inr True
            | Inr False \<Rightarrow> isAuthoredBy message owner_account))"

definition authorCommentedAfterUser ::
  "account \<Rightarrow> Changelist \<Rightarrow> (error + bool) \<times> Changelist" where
  "authorCommentedAfterUser user cl =
     (let owner = owner (json' cl);
          (allMessages, cl1) = getMessages cl
      in case js_filter (authoredByEither user owner) allMessages of
           Inl e \<Rightarrow> (Inl e, cl1)
         | Inr filteredMessages \<Rightarrow>
             (case js_index filteredMessages (int (length filteredMessages) - 1) of
                None \<Rightarrow> (Inr True, cl1)
              | Some lastMessage \<Rightarrow> (isAuthoredBy lastMessage owner, cl1)))"

text \<open>
  The body of the loop over the star labels in \<^verbatim>\<open>getCategory\<close>; the state is
  \<^verbatim>\<open>latest_tagged_rev_number\<close> and \<^verbatim>\<open>latest_tag_is_reviewed\<close> (\<^term>\<open>None\<close> for
  \<^verbatim>\<open>null\<close>).
\<close>

definition star_step :: "string \<Rightarrow> jsnum \<times> bool option \<Rightarrow> jsnum \<times> bool option" where
  "star_step star_label st =
     (let parts = js_split CHR ''/'' star_label in
      if length parts \<noteq> 2 then st
      else if parts ! 0 \<noteq> ''reviewed'' \<and> parts ! 0 \<noteq> ''unreviewed'' then st
      else
        let tagged_rev_number = parseInt (parts ! 1) in
        if js_le tagged_rev_number (fst st) then st
        else (tagged_rev_number, Some (parts ! 0 = ''reviewed'')))"

definition getCategory ::
  "int \<Rightarrow> account \<Rightarrow> Changelist \<Rightarrow> (error + Category) \<times> Changelist" where
  "getCategory now user cl =
     (if isOwner cl user then
        (if isSubmittable cl \<and> \<not> hasUnresolvedComments cl then (Inr READY_TO_SUBMIT, cl)
         else if isWorkInProgress cl then (Inr WIP, cl)
         else
           let (reviewers, cl1) = getReviewers cl in
           if length reviewers = 0 then (Inr NO_REVIEWERS, cl1)
           else if hasUnresolvedComments cl1 then (Inr OUTGOING_NEEDS_ATTENTION, cl1)
           else
             let (stale, cl2) = isStale now cl1 in
             if stale then (Inr STALE, cl2) else (Inr NONE, cl2))
      else if \<not> hasReviewed cl user then
        (let (revision, cl1) = getCurrentRevision cl in
         case Revision_getNumber revision of
           Inl e \<Rightarrow> (Inl e, cl1)
         | Inr current_rev_number \<Rightarrow>
             let (latest_tagged_rev_number, latest_tag_is_reviewed) =
                   fold star_step (getStars cl1) (Num (- 1), None)
             in
             if js_eq latest_tagged_rev_number (Num (int current_rev_number)) then
               (if latest_tag_is_reviewed = Some True then (Inr NONE, cl1)
                else (Inr INCOMING_NEEDS_ATTENTION, cl1))
             else
               let (commented, cl2) = authorCommentedAfterUser user cl1 in
               case commented of
                 Inl e \<Rightarrow> (Inl e, cl2)
               | Inr True \<Rightarrow> (Inr INCOMING_NEEDS_ATTENTION, cl2)
               | Inr False \<Rightarrow> (Inr NONE, cl2))
      else (Inr NONE, cl))"

text \<open>
  The invariant of a \<^verbatim>\<open>Changelist\<close> object: a cache is empty or holds what its
  method computes from the JSON.
\<close>

definition cache_ok :: "Changelist \<Rightarrow> bool" where
  "cache_ok cl =
     ((reviewers' cl = None \<or>
       reviewers' cl = Some (filterReviewers cl
          (\<lambda>reviewer. account_id reviewer \<noteq> account_id (owner (json' cl))))) \<and>
      (messages' cl = None \<or> messages' cl = Some (map Message_wrap (messages (json' cl)))) \<and>
      (current_revision' cl = None \<or>
       current_revision' cl =
         Some (Revision (revisions (json' cl) (current_revision (json' cl))))))"

section \<open>Description\<close>

text \<open>
  The pattern \<^verbatim>\<open>/^\s*([-A-Za-z]+)[=:](.*)$/\<close> on one line: white space, a key of
  letters and hyphens, \<^verbatim>\<open>=\<close> or \<^verbatim>\<open>:\<close>, and a rest without a line terminator
  (which \<^verbatim>\<open>.\<close> does not match). The result is the pair of the two groups.
\<close>

definition isKeyChar :: "char \<Rightarrow> bool" where
  "isKeyChar c =
     (let n = (of_char c :: nat) in
      c = CHR ''-'' \<or> (65 \<le> n \<and> n \<le> 90) \<or> (97 \<le> n \<and> n \<le> 122))"

definition isLineTerminator :: "char \<Rightarrow> bool" where
  "isLineTerminator c = (c = CHR 0x0A \<or> c = CHR 0x0D)"

definition ATTRIBUTE_RE_exec :: "string \<Rightarrow> (string \<times> string) option" where
  "ATTRIBUTE_RE_exec s =
     (let rest = dropWhile isWhiteSpace s;
          key = takeWhile isKeyChar rest;
          after = dropWhile isKeyChar rest
      in if key = [] then None
         else (case after of
                 [] \<Rightarrow> None
               | c # v \<Rightarrow>
                   if (c = CHR ''='' \<or> c = CHR '':'') \<and> list_all (\<lambda>x. \<not> isLineTerminator x) v
                   then Some (key, v) else None))"

text \<open>
  \<^verbatim>\<open>exec\<close> turns its argument into a string; the three loops of \<^verbatim>\<open>parse\<close> count
  \<^verbatim>\<open>cutoff\<close> down, the first and the third over empty lines, the second over
  attribute lines and the empty lines between them.
\<close>

definition js_to_string :: "string option \<Rightarrow> string" where
  "js_to_string v = (case v of None \<Rightarrow> ''undefined'' | Some s \<Rightarrow> s)"

function peel_empty :: "string list \<Rightarrow> int \<Rightarrow> int" where
  "peel_empty lines cutoff =
     (if cutoff \<ge> 1 \<and> js_index lines cutoff = Some ''''
      then peel_empty lines (cutoff - 1) else cutoff)"
  by pat_completeness auto
termination
  by (relation "measure (\<lambda>(lines, cutoff). nat cutoff)") auto

function peel_attributes ::
  "string list \<Rightarrow> int \<Rightarrow> (string \<times> string) list \<Rightarrow> int \<times> (string \<times> string) list" where
  "peel_attributes lines cutoff attributes =
     (if cutoff \<ge> 1 then
        (if js_index lines cutoff \<noteq> Some '''' then
           (case ATTRIBUTE_RE_exec (js_to_string (js_index lines cutoff)) of
              None \<Rightarrow> (cutoff, attributes)
            | Some match \<Rightarrow> peel_attributes lines (cutoff - 1) (attributes @ [match]))
         else peel_attributes lines (cutoff - 1) attributes)
      else (cutoff, attributes))"
  by pat_completeness auto
termination
  by (relation "measure (\<lambda>(lines, cutoff, attributes). nat cutoff)") auto

declare peel_empty.simps [simp del] peel_attributes.simps [simp del]

text \<open>\<^verbatim>\<open>xs.splice(0, deleteCount)\<close>: the elements removed.\<close>

definition js_splice0 :: "'a list \<Rightarrow> int \<Rightarrow> 'a list" where
  "js_splice0 xs deleteCount = take (nat deleteCount) xs"

definition Description_parse :: "string \<Rightarrow> string \<times> (string \<times> string) list" where
  "Description_parse text =
     (let lines = js_split CHR 0x0A text;
          cutoff = int (length lines) - 1;
          cutoff1 = peel_empty lines cutoff;
          (cutoff2, attributes) = peel_attributes lines cutoff1 [];
          cutoff3 = peel_empty lines cutoff2
      in (js_join CHR 0x0A (js_splice0 lines (cutoff3 + 1)), rev attributes))"

section \<open>SearchResult and SearchResults\<close>

text \<open>
  A \<^verbatim>\<open>SearchResult\<close> holds \<^verbatim>\<open>Changelist\<close> objects; \<^verbatim>\<open>includes\<close> compares them by
  identity and \<^verbatim>\<open>getCategory\<close> fills their caches. An object is a reference into a
  heap, and \<^verbatim>\<open>getCategoryMap\<close> returns the heap with its result. An exception ends
  the loop it is thrown in. The member \<^verbatim>\<open>host_\<close> of a \<^verbatim>\<open>SearchResult\<close> is
  \<open>result_host'\<close>. One call of \<^verbatim>\<open>getCategoryMap\<close> is given one clock reading
  \<open>now\<close> for all the calls of \<^verbatim>\<open>getCategory\<close> it makes.
\<close>

type_synonym ref = nat
type_synonym heap = "ref \<Rightarrow> Changelist"

text \<open>
  Modelled from the spec: \<^verbatim>\<open>utils.Map\<close> (\<^verbatim>\<open>utils.js\<close> is not among the sources), the
  mapping from a category to an ordered sequence of changelists, as the list of its
  entries in the order their keys were first put; \<^verbatim>\<open>forEach\<close> visits the entries in
  that order with the key and the value. \<^verbatim>\<open>has(key)\<close>:
\<close>

definition Map_has :: "('k \<times> 'v) list \<Rightarrow> 'k \<Rightarrow> bool" where
  "Map_has m k = (map_of m k \<noteq> None)"

text \<open>Modelled from the spec: \<^verbatim>\<open>get(key)\<close> of \<^verbatim>\<open>utils.Map\<close>, \<^verbatim>\<open>undefined\<close> for a key not put.\<close>

definition Map_get :: "('k \<times> 'v) list \<Rightarrow> 'k \<Rightarrow> 'v option" where
  "Map_get m k = map_of m k"

text \<open>
  Modelled from the spec: \<^verbatim>\<open>put(key, value)\<close> of \<^verbatim>\<open>utils.Map\<close>; a key already there
  keeps its place.
\<close>

definition Map_put :: "('k \<times> 'v) list \<Rightarrow> 'k \<Rightarrow> 'v \<Rightarrow> ('k \<times> 'v) list" where
  "Map_put m k v = AList.update k v m"

record SearchResult =
  result_host' :: string
  user' :: account
  data' :: "ref list"

definition getAccount :: "SearchResult \<Rightarrow> account" where
  "getAccount sr = user' sr"

text \<open>The loop \<^verbatim>\<open>this.data_.forEach(function(cl) {...})\<close> of \<^verbatim>\<open>SearchResult.getCategoryMap\<close>.\<close>

fun data_forEach ::
  "int \<Rightarrow> account \<Rightarrow> ref list \<Rightarrow> (Category \<times> ref list) list \<Rightarrow> heap \<Rightarrow>
   (error + (Category \<times> ref list) list) \<times> heap" where
  "data_forEach now user [] result h = (Inr result, h)"
| "data_forEach now user (cl # rest) result h =
     (let called = getCategory now user (h cl);
          h1 = h(cl := snd called)
      in case fst called of
           Inl e \<Rightarrow> (Inl e, h1)
         | Inr attention \<Rightarrow>
             (let result1 = (if \<not> Map_has result attention then Map_put result attention []
                             else result)
              in case Map_get result1 attention of
                   None \<Rightarrow> (Inl TypeError, h1)
                 | Some cls \<Rightarrow>
                     (let result2 = (if cl \<notin> set cls then Map_put result1 attention (cls @ [cl])
                                     else result1)
                      in data_forEach now user rest result2 h1)))"

definition SearchResult_getCategoryMap ::
  "int \<Rightarrow> SearchResult \<Rightarrow> heap \<Rightarrow> (error + (Category \<times> ref list) list) \<times> heap" where
  "SearchResult_getCategoryMap now sr h =
     (let result = []; user = getAccount sr in data_forEach now user (data' sr) result h)"

text \<open>
  The loop \<^verbatim>\<open>result.getCategoryMap().forEach(function(attention, cls) {...})\<close> and the
  loop over the results of \<^verbatim>\<open>SearchResults.getCategoryMap\<close>.
\<close>

fun map_forEach ::
  "(Category \<times> ref list) list \<Rightarrow> (Category \<times> ref list) list \<Rightarrow>
   error + (Category \<times> ref list) list" where
  "map_forEach [] categories = Inr categories"
| "map_forEach ((attention, cls) # entries) categories =
     (let categories1 = (if \<not> Map_has categories attention then Map_put categories attention []
                         else categories)
      in case Map_get categories1 attention of
           None \<Rightarrow> Inl TypeError
         | Some old \<Rightarrow> map_forEach entries (Map_put categories1 attention (old @ cls)))"

record SearchResults =
  results' :: "SearchResult list"

fun results_forEach ::
  "int \<Rightarrow> SearchResult list \<Rightarrow> (Category \<times> ref list) list \<Rightarrow> heap \<Rightarrow>
   (error + (Category \<times> ref list) list) \<times> heap" where
  "results_forEach now [] categories h = (Inr categories, h)"
| "results_forEach now (result # rest) categories h =
     (let called = SearchResult_getCategoryMap now result h in
      case fst called of
        Inl e \<Rightarrow> (Inl e, snd called)
      | Inr m \<Rightarrow>
          (case map_forEach m categories of
             Inl e \<Rightarrow> (Inl e, snd called)
           | Inr categories1 \<Rightarrow> results_forEach now rest categories1 (snd called)))"

definition SearchResults_getCategoryMap ::
  "int \<Rightarrow> SearchResults \<Rightarrow> heap \<Rightarrow> (error + (Category \<times> ref list) list) \<times> heap" where
  "SearchResults_getCategoryMap now srs h = results_forEach now (results' srs) [] h"

section \<open>The notions the specification speaks of\<close>

text \<open>
  What the specification calls an ignorable message (by the \<^verbatim>\<open>tag\<close> that Gerrit
  sends), the reviewer list, a positive vote, staleness, the owner speaking last and
  the star markers, each as a function of the JSON alone. A message is
  authored by an account when it has a \<^verbatim>\<open>real_author\<close> with the identifier of the
  account. A star label has the form \<^verbatim>\<open>reviewed/<s>\<close> or \<^verbatim>\<open>unreviewed/<s>\<close> when
  \<open>s\<close> has no slash. It is a marker for revision \<open>n\<close> when \<open>s\<close> is the decimal
  numeral of \<open>n\<close>; the highest marker of a list is the first one that carries the
  greatest revision number. The reading of a label is what the source makes of it: the
  kind and \<^verbatim>\<open>parseInt\<close> of \<open>s\<close>. \<open>category_of\<close> is the category as a function of
  the clock reading, the user and the JSON.
\<close>

definition ignorable :: "message_json \<Rightarrow> bool" where
  "ignorable m =
     (case tag m of
        None \<Rightarrow> False
      | Some t \<Rightarrow>
          prefix ''autogenerated:'' t \<and> t \<noteq> ''autogenerated:gerrit:newPatchSet'' \<and>
          t \<noteq> ''autogenerated:gerrit:newWipPatchSet'')"

definition code_review_entries :: "change_json \<Rightarrow> approval list" where
  "code_review_entries json =
     (case labels json ''Code-Review'' of
        None \<Rightarrow> []
      | Some l \<Rightarrow> (case all_votes l of None \<Rightarrow> [] | Some rs \<Rightarrow> rs))"

definition reviewer_list :: "change_json \<Rightarrow> approval list" where
  "reviewer_list json =
     filter (\<lambda>r. account_id r \<noteq> None \<and> account_id r \<noteq> Some 0 \<and>
                 account_id r \<noteq> account_id (owner json))
       (code_review_entries json)"

definition stale_at :: "int \<Rightarrow> change_json \<Rightarrow> bool" where
  "stale_at now json =
     (let ms = messages json;
          real = filter (\<lambda>m. \<not> shouldBeIgnored m) ms
      in if real \<noteq> [] then now - date (last real) > 86400000
         else if ms \<noteq> [] then now - date (last ms) > 86400000
         else True)"

definition has_positive_vote :: "change_json \<Rightarrow> account \<Rightarrow> bool" where
  "has_positive_vote json user =
     (\<exists>r \<in> set (code_review_entries json).
        account_id r = account_id user \<and> positive_vote r)"

definition authored_by :: "message_json \<Rightarrow> account \<Rightarrow> bool" where
  "authored_by m a =
     (case real_author m of
        None \<Rightarrow> False
      | Some author \<Rightarrow> account_id author = account_id a)"

definition owner_spoke_last :: "account \<Rightarrow> change_json \<Rightarrow> error + bool" where
  "owner_spoke_last user json =
     (if \<exists>m \<in> set (messages json). \<not> shouldBeIgnored m \<and> real_author m = None
      then Inl TypeError
      else
        let relevant =
              filter (\<lambda>m. \<not> shouldBeIgnored m \<and>
                          (authored_by m user \<or> authored_by m (owner json)))
                (messages json)
        in Inr (relevant = [] \<or> authored_by (last relevant) (owner json)))"

definition stars_of :: "change_json \<Rightarrow> string list" where
  "stars_of json = (case stars json of None \<Rightarrow> [] | Some ss \<Rightarrow> ss)"

definition category_of :: "int \<Rightarrow> account \<Rightarrow> change_json \<Rightarrow> error + Category" where
  "category_of now user json =
     (if account_id (owner json) = account_id user then
        Inr (if submittable json \<and> unresolved_comment_count json = 0 then READY_TO_SUBMIT
             else if work_in_progress json then WIP
             else if reviewer_list json = [] then NO_REVIEWERS
             else if unresolved_comment_count json \<noteq> 0 then OUTGOING_NEEDS_ATTENTION
             else if stale_at now json then STALE
             else NONE)
      else if has_positive_vote json user \<and> truthy_id (account_id user) then Inr NONE
      else
        (case revisions json (current_revision json) of
           None \<Rightarrow> Inl TypeError
         | Some rv \<Rightarrow>
             if js_eq (fst (fold star_step (stars_of json) (Num (- 1), None)))
                  (Num (int (number rv)))
             then Inr (if snd (fold star_step (stars_of json) (Num (- 1), None)) = Some True
                       then NONE else INCOMING_NEEDS_ATTENTION)
             else (case owner_spoke_last user json of
                     Inl e \<Rightarrow> Inl e
                   | Inr True \<Rightarrow> Inr INCOMING_NEEDS_ATTENTION
                   | Inr False \<Rightarrow> Inr NONE)))"

definition star_form :: "string \<Rightarrow> (bool \<times> string) option" where
  "star_form l =
     (if prefix ''reviewed/'' l \<and> CHR ''/'' \<notin> set (drop 9 l) then Some (True, drop 9 l)
      else if prefix ''unreviewed/'' l \<and> CHR ''/'' \<notin> set (drop 11 l)
        then Some (False, drop 11 l)
      else None)"

definition isDecimalDigit :: "char \<Rightarrow> bool" where
  "isDecimalDigit c = (let n = (of_char c :: nat) in 48 \<le> n \<and> n \<le> 57)"

definition decimal_value :: "string \<Rightarrow> nat" where
  "decimal_value s = foldl (\<lambda>acc c. acc * 10 + (of_char c - 48)) 0 s"

definition star_marker :: "string \<Rightarrow> (bool \<times> nat) option" where
  "star_marker l =
     (case star_form l of
        None \<Rightarrow> None
      | Some (r, s) \<Rightarrow>
          if s \<noteq> [] \<and> list_all isDecimalDigit s then Some (r, decimal_value s) else None)"

definition markers :: "string list \<Rightarrow> (bool \<times> nat) list" where
  "markers ls = List.map_filter star_marker ls"

definition highest_marker :: "(bool \<times> nat) list \<Rightarrow> (bool \<times> nat) option" where
  "highest_marker ms =
     (if ms = [] then None else find (\<lambda>m. snd m = Max (snd ` set ms)) ms)"



text \<open>
  The bucket of a category for one query: the changelists of the query that are of the
  category for its user, each once, in the order they are first seen. A key is in a
  map only with a bucket that is not empty.
\<close>

definition first_seen :: "'a list \<Rightarrow> 'a list" where
  "first_seen xs = rev (remdups (rev xs))"

definition bucket :: "int \<Rightarrow> heap \<Rightarrow> SearchResult \<Rightarrow> Category \<Rightarrow> ref list" where
  "bucket now h sr c =
     first_seen (filter (\<lambda>cl. fst (getCategory now (user' sr) (h cl)) = Inr c) (data' sr))"

definition nonempty :: "'a list \<Rightarrow> 'a list option" where
  "nonempty xs = (if xs = [] then None else Some xs)"

text \<open>
  For the proofs: the bucket as a function of the JSON, the bucket of a key with the
  empty one for a key that is missing, the push of \<^verbatim>\<open>getCategoryMap\<close>, and the
  invariants of the heap and of a map.
\<close>

definition json_bucket :: "int \<Rightarrow> heap \<Rightarrow> SearchResult \<Rightarrow> Category \<Rightarrow> ref list" where
  "json_bucket now h sr c =
     first_seen (filter (\<lambda>cl. category_of now (user' sr) (json' (h cl)) = Inr c) (data' sr))"

definition get0 :: "('k \<times> 'v list) list \<Rightarrow> 'k \<Rightarrow> 'v list" where
  "get0 m k = (case map_of m k of None \<Rightarrow> [] | Some xs \<Rightarrow> xs)"

definition ins :: "'a \<Rightarrow> 'a list \<Rightarrow> 'a list" where
  "ins x acc = (if x \<in> set acc then acc else acc @ [x])"

definition heap_ok :: "heap \<Rightarrow> bool" where
  "heap_ok h = (\<forall>r. cache_ok (h r))"

definition map_ok :: "('k \<times> 'v list) list \<Rightarrow> bool" where
  "map_ok m = (distinct (map fst m) \<and> (\<forall>c. map_of m c \<noteq> Some []))"

section \<open>Example inputs\<close>

text \<open>
  A change owned by \<open>alice\<close>, on which \<open>bob\<close> voted +1 and \<open>carol\<close> 0, with one
  message by the owner and a star on patch set 3, the current one; and variations.
\<close>

definition alice :: account where "alice = \<lparr>account_id = Some 1\<rparr>"
definition bob :: account where "bob = \<lparr>account_id = Some 7\<rparr>"
definition carol :: account where "carol = \<lparr>account_id = Some 8\<rparr>"

definition example_change :: change_json where
  "example_change =
     \<lparr>owner = alice, submittable = False, unresolved_comment_count = 0,
      work_in_progress = False,
      labels = [''Code-Review'' \<mapsto>
        \<lparr>all_votes = Some [\<lparr>account_id = Some 7, vote = Some 1\<rparr>,
                           \<lparr>account_id = Some 8, vote = Some 0\<rparr>]\<rparr>],
      messages = [\<lparr>tag = None, tag' = None, real_author = Some alice, date = 5\<rparr>],
      stars = Some [''unreviewed/3''],
      revisions = [''abc'' \<mapsto> \<lparr>number = 3\<rparr>],
      current_revision = ''abc''\<rparr>"

definition example_cl :: Changelist where
  "example_cl = Changelist_wrap ''https://gerrit.example'' example_change"

definition poisoned_change :: change_json where
  "poisoned_change =
     example_change\<lparr>stars := Some [''reviewed/3'', ''unreviewed/x'', ''unreviewed/2''],
                     messages := []\<rparr>"

definition poisoned_cl :: Changelist where
  "poisoned_cl = Changelist_wrap ''https://gerrit.example'' poisoned_change"

definition submittable_wip_change :: change_json where
  "submittable_wip_change = example_change\<lparr>submittable := True, work_in_progress := True\<rparr>"

definition submittable_wip_cl :: Changelist where
  "submittable_wip_cl = Changelist_wrap ''https://gerrit.example'' submittable_wip_change"

definition starred_change :: change_json where
  "starred_change =
     example_change\<lparr>stars := Some [''reviewed/2'', ''reviewed/3'', ''unreviewed/3'', ''ignore'']\<rparr>"

definition starred_cl :: Changelist where
  "starred_cl = Changelist_wrap ''https://gerrit.example'' starred_change"

definition answered_change :: change_json where
  "answered_change =
     example_change\<lparr>stars := Some [''reviewed/2''],
       messages := [\<lparr>tag = None, tag' = None, real_author = Some alice, date = 5\<rparr>,
                    \<lparr>tag = None, tag' = None, real_author = Some carol, date = 6\<rparr>,
                    \<lparr>tag = Some ''autogenerated:gerrit:merged'',
                     tag' = Some ''autogenerated:gerrit:merged'', real_author = Some alice,
                     date = 7\<rparr>]\<rparr>"

definition answered_cl :: Changelist where
  "answered_cl = Changelist_wrap ''https://gerrit.example'' answered_change"

definition bot_change :: change_json where
  "bot_change =
     example_change\<lparr>messages :=
        [\<lparr>tag = Some ''autogenerated:gerrit:merged'',
          tag' = Some ''autogenerated:gerrit:merged'', real_author = Some alice, date = 5\<rparr>,
         \<lparr>tag = Some ''autogenerated:ci'', tag' = Some ''autogenerated:ci'',
          real_author = Some bob, date = 9\<rparr>]\<rparr>"

definition bot_cl :: Changelist where
  "bot_cl = Changelist_wrap ''https://gerrit.example'' bot_change"

text \<open>
  A merge notice as Gerrit sends it, with its \<^verbatim>\<open>tag\<close> and without \<^verbatim>\<open>tag_\<close>; a change
  whose only star is \<^verbatim>\<open>reviewed/3abc\<close>; a change whose only message has no
  \<^verbatim>\<open>real_author\<close>; a change whose \<^verbatim>\<open>current_revision\<close> is not among its
  \<^verbatim>\<open>revisions\<close>.
\<close>

definition gerrit_merge_message :: message_json where
  "gerrit_merge_message =
     \<lparr>tag = Some ''autogenerated:gerrit:merged'', tag' = None, real_author = Some alice,
      date = 5\<rparr>"







definition example_description :: string where
  "example_description =
     ''Fix it'' @ CHR 0x0A # CHR 0x0A # ''Bug: 12'' @ CHR 0x0A # CHR 0x0A # ''R=me'' @ [CHR 0x0A]"

text \<open>
  A heap of four changelists; a query of \<open>carol\<close> that lists the first twice, and one
  of the owner.
\<close>

definition example_heap :: heap where
  "example_heap = (\<lambda>r. example_cl)(1 := answered_cl, 2 := starred_cl, 3 := bot_cl)"

definition review_query :: SearchResult where
  "review_query = \<lparr>result_host' = ''https://gerrit.example'', user' = carol,
     data' = [0, 1, 0, 2, 3]\<rparr>"

definition owner_query :: SearchResult where
  "owner_query = \<lparr>result_host' = ''https://gerrit.example'', user' = alice, data' = [3, 0]\<rparr>"

section \<open>Lemmas on the built-ins, the caches and the loop over the stars\<close>

lemma js_index_last:
  "js_index xs (int (length xs) - 1) = (if xs = [] then None else Some (last xs))"
  by (cases xs rule: rev_cases) (simp_all add: js_index_def nth_append)

lemma truthy_id_iff: "truthy_id i \<longleftrightarrow> i \<noteq> None \<and> i \<noteq> Some 0"
  by (cases i) (simp_all add: truthy_id_def)

lemma filterReviewers_entries:
  "filterReviewers cl f =
     filter (\<lambda>r. truthy_id (account_id r) \<and> f r) (code_review_entries (json' cl))"
  by (simp add: filterReviewers_def code_review_entries_def)

lemma map_Message_wrap: "map Message_wrap xs = xs"
  by (induction xs) (simp_all add: Message_wrap_def)

lemma getReviewers_fst: "cache_ok cl \<Longrightarrow> fst (getReviewers cl) = reviewer_list (json' cl)"
  by (auto simp: getReviewers_def cache_ok_def reviewer_list_def filterReviewers_entries
      truthy_id_iff Let_def split: option.splits intro: filter_cong)

lemma getReviewers_json: "json' (snd (getReviewers cl)) = json' cl"
  by (simp add: getReviewers_def Let_def split: option.splits)

lemma getReviewers_ok: "cache_ok cl \<Longrightarrow> cache_ok (snd (getReviewers cl))"
  by (auto simp: getReviewers_def cache_ok_def filterReviewers_entries Let_def split: option.splits)

lemma getMessages_fst: "cache_ok cl \<Longrightarrow> fst (getMessages cl) = messages (json' cl)"
  by (auto simp: getMessages_def cache_ok_def map_Message_wrap Let_def split: option.splits)

lemma getMessages_json: "json' (snd (getMessages cl)) = json' cl"
  by (simp add: getMessages_def Let_def split: option.splits)

lemma getMessages_ok: "cache_ok cl \<Longrightarrow> cache_ok (snd (getMessages cl))"
  by (auto simp: getMessages_def cache_ok_def filterReviewers_entries Let_def split: option.splits)

lemma getCurrentRevision_fst:
  "cache_ok cl \<Longrightarrow>
   fst (getCurrentRevision cl) = Revision (revisions (json' cl) (current_revision (json' cl)))"
  by (auto simp: getCurrentRevision_def cache_ok_def Let_def split: option.splits)

lemma getCurrentRevision_json: "json' (snd (getCurrentRevision cl)) = json' cl"
  by (simp add: getCurrentRevision_def Let_def split: option.splits)

lemma getCurrentRevision_ok: "cache_ok cl \<Longrightarrow> cache_ok (snd (getCurrentRevision cl))"
  by (auto simp: getCurrentRevision_def cache_ok_def filterReviewers_entries Let_def
      split: option.splits)

lemma isStale_snd: "snd (isStale now cl) = snd (getMessages cl)"
  by (simp add: isStale_def Let_def split_beta split: option.splits)

lemma isStale_fst: "cache_ok cl \<Longrightarrow> fst (isStale now cl) = stale_at now (json' cl)"
  by (simp add: isStale_def stale_at_def Let_def js_index_last getTime_def split_beta
      getMessages_fst)

lemma hasReviewed_iff:
  "hasReviewed cl user \<longleftrightarrow>
     has_positive_vote (json' cl) user \<and> truthy_id (account_id user)"
  by (auto simp: hasReviewed_def has_positive_vote_def filterReviewers_entries
      filter_empty_conv)

lemma authorCommentedAfterUser_snd: "snd (authorCommentedAfterUser user cl) = snd (getMessages cl)"
  by (simp add: authorCommentedAfterUser_def Let_def split_beta split: sum.splits option.splits)

lemma isAuthoredBy_authored_by:
  "real_author m \<noteq> None \<Longrightarrow> isAuthoredBy m a = Inr (authored_by m a)"
  by (auto simp: isAuthoredBy_def authored_by_def)

lemma authored_by_real_author: "authored_by m a \<Longrightarrow> real_author m \<noteq> None"
  by (auto simp: authored_by_def split: option.splits)

lemma authoredByEither_cases:
  "authoredByEither user a m =
     (if shouldBeIgnored m then Inr False
      else if real_author m = None then Inl TypeError
      else Inr (authored_by m user \<or> authored_by m a))"
  by (cases "real_author m")
    (auto simp: authoredByEither_def isAuthoredBy_def authored_by_def split: bool.splits)

lemma js_filter_authoredByEither:
  "js_filter (authoredByEither user a) ms =
     (if \<exists>m \<in> set ms. \<not> shouldBeIgnored m \<and> real_author m = None then Inl TypeError
      else Inr (filter (\<lambda>m. \<not> shouldBeIgnored m \<and> (authored_by m user \<or> authored_by m a))
                  ms))"
  by (induction ms) (auto simp: authoredByEither_cases)

lemma authorCommentedAfterUser_fst:
  assumes ok: "cache_ok cl"
  shows "fst (authorCommentedAfterUser user cl) = owner_spoke_last user (json' cl)"
proof (cases "\<exists>m \<in> set (messages (json' cl)). \<not> shouldBeIgnored m \<and> real_author m = None")
  case True
  then show ?thesis
    by (simp add: authorCommentedAfterUser_def owner_spoke_last_def Let_def split_beta
        getMessages_fst [OF ok] js_filter_authoredByEither)
next
  case False
  define relevant where "relevant =
      filter (\<lambda>m. \<not> shouldBeIgnored m \<and>
                 (authored_by m user \<or> authored_by m (owner (json' cl))))
        (messages (json' cl))"
  have filtered: "js_filter (authoredByEither user (owner (json' cl))) (messages (json' cl)) =
      Inr relevant"
    using False by (simp add: js_filter_authoredByEither relevant_def)
  have last: "relevant \<noteq> [] \<Longrightarrow>
      isAuthoredBy (last relevant) (owner (json' cl)) =
        Inr (authored_by (last relevant) (owner (json' cl)))"
  proof -
    assume "relevant \<noteq> []"
    then have "last relevant \<in> set relevant" by simp
    then have "authored_by (last relevant) user \<or>
        authored_by (last relevant) (owner (json' cl))"
      by (simp add: relevant_def)
    then have "real_author (last relevant) \<noteq> None"
      using authored_by_real_author by blast
    then show ?thesis by (rule isAuthoredBy_authored_by)
  qed
  have spec: "owner_spoke_last user (json' cl) =
      Inr (relevant = [] \<or> authored_by (last relevant) (owner (json' cl)))"
    using False by (simp add: owner_spoke_last_def relevant_def Let_def)
  show ?thesis
  proof (cases "relevant = []")
    case True
    then show ?thesis
      by (simp add: authorCommentedAfterUser_def Let_def split_beta getMessages_fst [OF ok]
          filtered spec js_index_def)
  next
    case False
    with last show ?thesis
      by (simp add: authorCommentedAfterUser_def Let_def split_beta getMessages_fst [OF ok]
          filtered spec js_index_last)
  qed
qed

lemma getStars_json: "getStars cl = stars_of (json' cl)"
  by (simp add: getStars_def stars_of_def)

lemma getCategory_json: "json' (snd (getCategory now user cl)) = json' cl"
  by (simp add: getCategory_def Let_def split_beta isStale_snd authorCommentedAfterUser_snd
      getMessages_json getReviewers_json getCurrentRevision_json
      split: sum.splits bool.splits)

lemma getCategory_ok: "cache_ok cl \<Longrightarrow> cache_ok (snd (getCategory now user cl))"
  by (simp add: getCategory_def Let_def split_beta isStale_snd authorCommentedAfterUser_snd
      getMessages_ok getReviewers_ok getCurrentRevision_ok split: sum.splits bool.splits)

lemma hasUnresolvedComments_json:
  "json' cl1 = json' cl \<Longrightarrow> hasUnresolvedComments cl1 = hasUnresolvedComments cl"
  by (simp add: hasUnresolvedComments_def)

lemma getCategory_fst:
  assumes ok: "cache_ok cl"
  shows "fst (getCategory now user cl) = category_of now user (json' cl)"
proof (cases "isOwner cl user")
  case True
  have ok1: "cache_ok (snd (getReviewers cl))" by (rule getReviewers_ok [OF ok])
  from True show ?thesis
    by (simp add: getCategory_def category_of_def Let_def split_beta isOwner_def
        isSubmittable_def hasUnresolvedComments_def isWorkInProgress_def
        getReviewers_fst [OF ok] getReviewers_json isStale_fst [OF ok1])
next
  case False
  have ok1: "cache_ok (snd (getCurrentRevision cl))" by (rule getCurrentRevision_ok [OF ok])
  from False show ?thesis
    by (cases "revisions (json' cl) (current_revision (json' cl))")
      (simp_all add: getCategory_def category_of_def Let_def split_beta isOwner_def
        hasReviewed_iff getCurrentRevision_fst [OF ok] getCurrentRevision_json getStars_json
        authorCommentedAfterUser_fst [OF ok1] split: sum.splits bool.splits)
qed


lemma js_split_not_Nil: "js_split sep s \<noteq> []"
  by (induction s) (simp_all split: list.splits)












lemma startsWith_prefix: "startsWith s p \<longleftrightarrow> prefix p s"
  unfolding startsWith_def prefix_def
  by (metis append_eq_conv_conj append_take_drop_id)

lemma cache_ok_wrap: "cache_ok (Changelist_wrap host json)"
  by (simp add: cache_ok_def Changelist_wrap_def)


lemma json_wrap: "json' (Changelist_wrap host json) = json"
  by (simp add: Changelist_wrap_def)

lemma category_of_not_owner:
  "account_id (owner json) \<noteq> account_id user \<Longrightarrow>
   category_of now1 user json = category_of now2 user json"
  by (simp add: category_of_def)


lemma shouldBeIgnored_reads_tag':
  "shouldBeIgnored m \<longleftrightarrow>
     (\<exists>t. tag' m = Some t \<and> prefix ''autogenerated:'' t \<and>
          t \<noteq> ''autogenerated:gerrit:newPatchSet'' \<and>
          t \<noteq> ''autogenerated:gerrit:newWipPatchSet'')"
  by (cases "tag' m") (auto simp: shouldBeIgnored_def startsWith_prefix)

section \<open>Lemmas on the loops of Description.parse\<close>

lemma map_filter_append:
  "List.map_filter f (xs @ ys) = List.map_filter f xs @ List.map_filter f ys"
  by (simp add: List.map_filter_def)

lemma map_filter_all_None:
  "\<forall>x \<in> set xs. f x = None \<Longrightarrow> List.map_filter f xs = []"
  by (induction xs) (simp_all add: map_filter_simps)

lemma ATTRIBUTE_RE_exec_empty: "ATTRIBUTE_RE_exec '''' = None"
  by (simp add: ATTRIBUTE_RE_exec_def)

lemma js_index_Suc: "Suc n < length xs \<Longrightarrow> js_index xs (1 + int n) = Some (xs ! Suc n)"
  by (simp add: js_index_def nat_add_distrib)

lemma peel_empty_nat:
  "n < length lines \<Longrightarrow>
   \<exists>k \<le> n. peel_empty lines (int n) = int k \<and> (\<forall>i. k < i \<and> i \<le> n \<longrightarrow> lines ! i = '''')"
proof (induction n)
  case 0
  show ?case by (subst peel_empty.simps) simp
next
  case (Suc n)
  then have n: "n < length lines" by simp
  show ?case
  proof (cases "lines ! Suc n = ''''")
    case True
    from Suc.IH [OF n] obtain k where k: "k \<le> n" "peel_empty lines (int n) = int k"
      "\<forall>i. k < i \<and> i \<le> n \<longrightarrow> lines ! i = ''''" by blast
    have "peel_empty lines (int (Suc n)) = peel_empty lines (int n)"
      using True Suc.prems by (subst peel_empty.simps) (simp add: js_index_Suc)
    moreover have "\<forall>i. k < i \<and> i \<le> Suc n \<longrightarrow> lines ! i = ''''"
      using k(3) True by (auto simp: le_Suc_eq)
    ultimately show ?thesis using k(1,2) by (intro exI [of _ k]) simp
  next
    case False
    have "peel_empty lines (int (Suc n)) = int (Suc n)"
      using False Suc.prems by (subst peel_empty.simps) (simp add: js_index_Suc)
    then show ?thesis by (intro exI [of _ "Suc n"]) auto
  qed
qed

lemma peel_attributes_nat:
  "n < length lines \<Longrightarrow>
   \<exists>k \<le> n. peel_attributes lines (int n) acc =
     (int k, acc @ rev (List.map_filter ATTRIBUTE_RE_exec (drop (Suc k) (take (Suc n) lines)))) \<and>
     list_all (\<lambda>l. l = '''' \<or> ATTRIBUTE_RE_exec l \<noteq> None) (drop (Suc k) (take (Suc n) lines))"
proof (induction n arbitrary: acc)
  case 0
  show ?case by (subst peel_attributes.simps) (simp add: map_filter_simps)
next
  case (Suc n)
  then have n: "n < length lines" by simp
  have idx: "js_index lines (1 + int n) = Some (lines ! Suc n)"
    using Suc.prems by (rule js_index_Suc)
  have tk: "take (Suc (Suc n)) lines = take (Suc n) lines @ [lines ! Suc n]"
    using Suc.prems by (rule take_Suc_conv_app_nth)
  have dr: "\<And>k. k \<le> n \<Longrightarrow> drop (Suc k) (take (Suc (Suc n)) lines) =
      drop (Suc k) (take (Suc n) lines) @ [lines ! Suc n]"
    using n by (simp add: tk)
  show ?case
  proof (cases "lines ! Suc n = ''''")
    case True
    from Suc.IH [OF n, of acc] obtain k where k: "k \<le> n"
      "peel_attributes lines (int n) acc =
        (int k, acc @ rev (List.map_filter ATTRIBUTE_RE_exec (drop (Suc k) (take (Suc n) lines))))"
      "list_all (\<lambda>l. l = '''' \<or> ATTRIBUTE_RE_exec l \<noteq> None) (drop (Suc k) (take (Suc n) lines))"
      by blast
    have "peel_attributes lines (int (Suc n)) acc = peel_attributes lines (int n) acc"
      using True by (subst peel_attributes.simps) (simp add: idx)
    with k True show ?thesis
      by (intro exI [of _ k])
        (simp add: dr map_filter_append map_filter_simps ATTRIBUTE_RE_exec_empty)
  next
    case False
    show ?thesis
    proof (cases "ATTRIBUTE_RE_exec (lines ! Suc n)")
      case None
      have "peel_attributes lines (int (Suc n)) acc = (int (Suc n), acc)"
        using False None by (subst peel_attributes.simps) (simp add: idx js_to_string_def)
      then show ?thesis by (intro exI [of _ "Suc n"]) (simp add: map_filter_simps)
    next
      case (Some m)
      from Suc.IH [OF n, of "acc @ [m]"] obtain k where k: "k \<le> n"
        "peel_attributes lines (int n) (acc @ [m]) =
          (int k, (acc @ [m]) @
             rev (List.map_filter ATTRIBUTE_RE_exec (drop (Suc k) (take (Suc n) lines))))"
        "list_all (\<lambda>l. l = '''' \<or> ATTRIBUTE_RE_exec l \<noteq> None)
           (drop (Suc k) (take (Suc n) lines))"
        by blast
      have "peel_attributes lines (int (Suc n)) acc = peel_attributes lines (int n) (acc @ [m])"
        using False Some by (subst peel_attributes.simps) (simp add: idx js_to_string_def)
      with k Some show ?thesis
        by (intro exI [of _ k]) (simp add: dr map_filter_append map_filter_simps)
    qed
  qed
qed

lemma js_join_Cons_if:
  "js_join sep (x # zs) = x @ (if zs = [] then [] else sep # js_join sep zs)"
  by (cases zs) simp_all

lemma js_join_take_prefix: "0 < n \<Longrightarrow> xs \<noteq> [] \<Longrightarrow> prefix (hd xs) (js_join sep (take n xs))"
proof -
  assume "0 < n" and "xs \<noteq> []"
  then obtain m x ys where "n = Suc m" "xs = x # ys" by (cases n; cases xs) auto
  then show ?thesis by (simp add: js_join_Cons_if)
qed

section \<open>Lemmas on the loops of getCategoryMap\<close>

lemma remdups_drop_earlier:
  "x \<in> set zs \<Longrightarrow> remdups (ys @ x # zs) = remdups (ys @ zs)"
  by (induction ys) auto

lemma first_seen_seen: "x \<in> set acc \<Longrightarrow> first_seen (acc @ x # xs) = first_seen (acc @ xs)"
  by (simp add: first_seen_def remdups_drop_earlier)

lemma first_seen_distinct: "distinct acc \<Longrightarrow> first_seen acc = acc"
  by (simp add: first_seen_def distinct_remdups_id)

lemma distinct_first_seen: "distinct (first_seen xs)"
  by (simp add: first_seen_def)

lemma set_first_seen: "set (first_seen xs) = set xs"
  by (simp add: first_seen_def)

lemma fold_ins: "distinct acc \<Longrightarrow> fold ins xs acc = first_seen (acc @ xs)"
proof (induction xs arbitrary: acc)
  case Nil
  then show ?case by (simp add: first_seen_distinct)
next
  case (Cons x xs)
  show ?case
  proof (cases "x \<in> set acc")
    case True
    then show ?thesis using Cons by (simp add: ins_def first_seen_seen)
  next
    case False
    then have "distinct (acc @ [x])" using Cons.prems by simp
    from Cons.IH [OF this] False show ?thesis by (simp add: ins_def)
  qed
qed

lemma get0_put: "get0 (Map_put m k v) c = (if c = k then v else get0 m c)"
  by (simp add: get0_def Map_put_def update_conv')

lemma get0_Nil: "get0 [] c = []"
  by (simp add: get0_def)

lemma map_ok_Nil: "map_ok []"
  by (simp add: map_ok_def)

lemma map_ok_put: "map_ok m \<Longrightarrow> v \<noteq> [] \<Longrightarrow> map_ok (Map_put m k v)"
  by (simp add: map_ok_def Map_put_def distinct_update update_conv')

lemma Map_get_nonempty: "map_ok m \<Longrightarrow> Map_get m c = nonempty (get0 m c)"
  by (auto simp: map_ok_def Map_get_def nonempty_def get0_def split: option.splits)

lemma data_forEach_Cons:
  assumes "fst (getCategory now user (h cl)) = Inr a" and "map_ok result"
  shows "data_forEach now user (cl # rest) result h =
     data_forEach now user rest (Map_put result a (ins cl (get0 result a)))
       (h(cl := snd (getCategory now user (h cl))))"
proof (cases "map_of result a")
  case None
  with assms show ?thesis
    by (simp add: Let_def Map_has_def Map_get_def Map_put_def update_conv' get0_def ins_def)
next
  case (Some cls)
  with assms show ?thesis
    by (auto simp: Let_def Map_has_def Map_get_def get0_def ins_def Map_put_def update_triv)
qed

lemma data_forEach_spec:
  assumes "heap_ok h" and "map_ok result"
    and "\<forall>cl \<in> set cls. category_of now user (json' (h cl)) \<noteq> Inl TypeError"
  shows "\<exists>m h'. data_forEach now user cls result h = (Inr m, h') \<and> heap_ok h' \<and>
     (\<forall>r. json' (h' r) = json' (h r)) \<and> map_ok m \<and>
     (\<forall>c. get0 m c =
        fold ins (filter (\<lambda>cl. category_of now user (json' (h cl)) = Inr c) cls) (get0 result c))"
  using assms
proof (induction cls arbitrary: result h)
  case Nil
  then show ?case by simp
next
  case (Cons cl rest)
  from Cons.prems(3) obtain a where a: "category_of now user (json' (h cl)) = Inr a"
    by (cases "category_of now user (json' (h cl))") (auto, case_tac a, auto)
  have ok: "cache_ok (h cl)" using Cons.prems(1) by (simp add: heap_ok_def)
  have called: "fst (getCategory now user (h cl)) = Inr a"
    by (simp add: getCategory_fst [OF ok] a)
  define h1 where "h1 = h(cl := snd (getCategory now user (h cl)))"
  define result1 where "result1 = Map_put result a (ins cl (get0 result a))"
  have json1: "\<And>r. json' (h1 r) = json' (h r)"
    by (simp add: h1_def getCategory_json)
  have ok1: "heap_ok h1"
    using Cons.prems(1) by (simp add: h1_def heap_ok_def getCategory_ok)
  have mok1: "map_ok result1"
    unfolding result1_def by (rule map_ok_put [OF Cons.prems(2)]) (auto simp: ins_def)
  have rest1: "\<forall>cl \<in> set rest. category_of now user (json' (h1 cl)) \<noteq> Inl TypeError"
    using Cons.prems(3) by (simp add: json1)
  from Cons.IH [OF ok1 mok1 rest1] obtain m h' where
    res: "data_forEach now user rest result1 h1 = (Inr m, h')" and "heap_ok h'"
      and "\<forall>r. json' (h' r) = json' (h1 r)" and "map_ok m"
      and buckets: "\<forall>c. get0 m c =
        fold ins (filter (\<lambda>cl. category_of now user (json' (h1 cl)) = Inr c) rest)
          (get0 result1 c)"
    by blast
  have "data_forEach now user (cl # rest) result h = (Inr m, h')"
    using data_forEach_Cons [where h = h and cl = cl, OF called Cons.prems(2)] res
    by (simp add: h1_def result1_def)
  moreover have "\<forall>c. get0 m c =
      fold ins (filter (\<lambda>cl. category_of now user (json' (h cl)) = Inr c) (cl # rest))
        (get0 result c)"
    using buckets a by (auto simp: json1 result1_def get0_put)
  ultimately show ?case
    using \<open>heap_ok h'\<close> \<open>\<forall>r. json' (h' r) = json' (h1 r)\<close> \<open>map_ok m\<close> json1 by auto
qed

lemma SearchResult_getCategoryMap_spec:
  assumes "heap_ok h"
    and "\<forall>cl \<in> set (data' sr). category_of now (user' sr) (json' (h cl)) \<noteq> Inl TypeError"
  shows "\<exists>m h'. SearchResult_getCategoryMap now sr h = (Inr m, h') \<and> heap_ok h' \<and>
     (\<forall>r. json' (h' r) = json' (h r)) \<and> map_ok m \<and> (\<forall>c. get0 m c = json_bucket now h sr c)"
proof -
  from data_forEach_spec [OF assms(1) map_ok_Nil assms(2)]
  show ?thesis
    by (simp add: SearchResult_getCategoryMap_def getAccount_def json_bucket_def get0_Nil fold_ins)
qed

lemma map_ok_Cons:
  assumes "map_ok ((k, v) # rest)"
  shows "map_ok rest" and "v \<noteq> []" and "map_of rest k = None"
proof -
  from assms have d: "distinct (map fst rest)" and k: "k \<notin> fst ` set rest"
    and ne: "\<And>c. map_of ((k, v) # rest) c \<noteq> Some []"
    by (auto simp: map_ok_def)
  from k show none: "map_of rest k = None" by (simp add: map_of_eq_None_iff)
  from ne [of k] show "v \<noteq> []" by simp
  have "\<And>c. map_of rest c \<noteq> Some []"
  proof -
    fix c show "map_of rest c \<noteq> Some []" using ne [of c] none by (cases "c = k") auto
  qed
  with d show "map_ok rest" by (simp add: map_ok_def)
qed

lemma map_forEach_spec:
  assumes "map_ok m" and "map_ok categories"
  shows "\<exists>m'. map_forEach m categories = Inr m' \<and> map_ok m' \<and>
     (\<forall>c. get0 m' c = get0 categories c @ get0 m c)"
  using assms
proof (induction m arbitrary: categories)
  case Nil
  then show ?case by (simp add: get0_Nil)
next
  case (Cons entry rest)
  obtain k v where entry: "entry = (k, v)" by (cases entry)
  from map_ok_Cons [OF Cons.prems(1) [unfolded entry]]
  have rest: "map_ok rest" and v: "v \<noteq> []" and k: "map_of rest k = None" .
  define categories2 where "categories2 = Map_put categories k (get0 categories k @ v)"
  have step: "map_forEach (entry # rest) categories = map_forEach rest categories2"
    by (cases "map_of categories k")
      (simp_all add: entry categories2_def Let_def Map_has_def Map_get_def Map_put_def
        update_conv' get0_def)
  have ok2: "map_ok categories2"
    unfolding categories2_def by (rule map_ok_put [OF Cons.prems(2)]) (simp add: v)
  from Cons.IH [OF rest ok2] obtain m' where m': "map_forEach rest categories2 = Inr m'"
    "map_ok m'" "\<forall>c. get0 m' c = get0 categories2 c @ get0 rest c" by blast
  have e1: "\<And>c. get0 (entry # rest) c = (if c = k then v else get0 rest c)"
    by (simp add: entry get0_def)
  have e2: "get0 rest k = []" using k by (simp add: get0_def)
  have "\<forall>c. get0 m' c = get0 categories c @ get0 (entry # rest) c"
    using m'(3) by (simp add: categories2_def get0_put e1 e2)
  with step m'(1,2) show ?case by simp
qed

lemma json_bucket_json:
  "\<forall>r. json' (h1 r) = json' (h r) \<Longrightarrow> json_bucket now h1 sr c = json_bucket now h sr c"
  by (simp add: json_bucket_def)

lemma results_forEach_spec:
  assumes "heap_ok h" and "map_ok categories"
    and "\<forall>sr \<in> set srs. \<forall>cl \<in> set (data' sr).
           category_of now (user' sr) (json' (h cl)) \<noteq> Inl TypeError"
  shows "\<exists>m h'. results_forEach now srs categories h = (Inr m, h') \<and> map_ok m \<and>
     (\<forall>c. get0 m c = get0 categories c @ concat (map (\<lambda>sr. json_bucket now h sr c) srs))"
  using assms
proof (induction srs arbitrary: categories h)
  case Nil
  then show ?case by simp
next
  case (Cons sr rest)
  have here: "\<forall>cl \<in> set (data' sr). category_of now (user' sr) (json' (h cl)) \<noteq> Inl TypeError"
    using Cons.prems(3) by simp
  from SearchResult_getCategoryMap_spec [OF Cons.prems(1) here] obtain m h1 where
    m: "SearchResult_getCategoryMap now sr h = (Inr m, h1)" "heap_ok h1"
      "\<forall>r. json' (h1 r) = json' (h r)" "map_ok m" "\<forall>c. get0 m c = json_bucket now h sr c"
    by blast
  from map_forEach_spec [OF m(4) Cons.prems(2)] obtain categories1 where
    c1: "map_forEach m categories = Inr categories1" "map_ok categories1"
      "\<forall>c. get0 categories1 c = get0 categories c @ get0 m c"
    by blast
  have later: "\<forall>sr \<in> set rest. \<forall>cl \<in> set (data' sr).
      category_of now (user' sr) (json' (h1 cl)) \<noteq> Inl TypeError"
    using Cons.prems(3) m(3) by simp
  from Cons.IH [OF m(2) c1(2) later] obtain m' h' where
    r: "results_forEach now rest categories1 h1 = (Inr m', h')" "map_ok m'"
      "\<forall>c. get0 m' c = get0 categories1 c @ concat (map (\<lambda>sr. json_bucket now h1 sr c) rest)"
    by blast
  have "results_forEach now (sr # rest) categories h = (Inr m', h')"
    using m(1) c1(1) r(1) by (simp add: Let_def)
  moreover have "\<forall>c. get0 m' c =
      get0 categories c @ concat (map (\<lambda>sr. json_bucket now h sr c) (sr # rest))"
    using r(3) c1(3) m(5) by (simp add: json_bucket_json [OF m(3)])
  ultimately show ?case using r(2) by blast
qed

lemma bucket_json_bucket: "heap_ok h \<Longrightarrow> bucket now h sr c = json_bucket now h sr c"
  by (simp add: bucket_def json_bucket_def heap_ok_def getCategory_fst)

lemma getCategory_no_error:
  "heap_ok h \<Longrightarrow> fst (getCategory now user (h cl)) \<noteq> Inl TypeError \<Longrightarrow>
   category_of now user (json' (h cl)) \<noteq> Inl TypeError"
  by (simp add: heap_ok_def getCategory_fst)

section \<open>Message.shouldBeIgnored\<close>

text \<open>
  Claim C1. The claim has a message ignored exactly when its tag is there, starts
  with \<^verbatim>\<open>autogenerated:\<close> and is neither of the two patch-set tags. The method reads
  the property \<^verbatim>\<open>tag_\<close>, and Gerrit sends the tag as \<^verbatim>\<open>tag\<close>: the merge notice that
  Gerrit sends is ignorable by its tag, and \<^verbatim>\<open>shouldBeIgnored\<close> returns false on it.
\<close>

theorem shouldBeIgnored_misses_tag:
  "tag gerrit_merge_message = Some ''autogenerated:gerrit:merged'' \<and>
   tag' gerrit_merge_message = None \<and>
   ignorable gerrit_merge_message \<and>
   \<not> shouldBeIgnored gerrit_merge_message"
  by code_simp

section \<open>Changelist.getCategory for a user who has reviewed\<close>

text \<open>
  Claim C2, as the code has it. For a user who is not the owner and for whom the
  Code-Review label lists an entry with the user's account identifier (set and not 0)
  and a positive vote, \<^verbatim>\<open>getCategory\<close> returns \<open>NONE\<close> and leaves the object as it
  was: the stars are not read on this path.
\<close>

theorem getCategory_reviewed:
  assumes "\<not> isOwner cl user" and "has_positive_vote (json' cl) user"
    and "account_id user \<noteq> None" and "account_id user \<noteq> Some 0"
  shows "getCategory now user cl = (Inr NONE, cl)"
  using assms by (simp add: getCategory_def hasReviewed_iff truthy_id_iff)

theorem getCategory_reviewed_witness:
  "\<not> isOwner example_cl bob \<and> has_positive_vote (json' example_cl) bob \<and>
   getCategory 0 bob example_cl = (Inr NONE, example_cl)"
proof -
  have h1: "\<not> isOwner example_cl bob" by code_simp
  have h2: "has_positive_vote (json' example_cl) bob" by code_simp
  have h3: "account_id bob \<noteq> None" "account_id bob \<noteq> Some 0" by code_simp+
  from getCategory_reviewed [OF h1 h2 h3] h1 h2 show ?thesis by simp
qed

text \<open>
  Claim C2 as stated lets a star marker for the current revision decide. Here \<open>bob\<close>
  has voted +1, the only star marks the current patch set 3 as unreviewed, and the
  category is \<open>NONE\<close>, not \<open>INCOMING_NEEDS_ATTENTION\<close>.
\<close>

theorem reviewed_ignores_stars:
  "\<not> isOwner example_cl bob \<and> has_positive_vote (json' example_cl) bob \<and>
   getStars example_cl = [''unreviewed/3''] \<and>
   star_marker ''unreviewed/3'' = Some (False, 3) \<and>
   Revision_getNumber (fst (getCurrentRevision example_cl)) = Inr 3 \<and>
   fst (getCategory 0 bob example_cl) = Inr NONE \<and>
   fst (getCategory 0 bob example_cl) \<noteq> Inr INCOMING_NEEDS_ATTENTION"
  by code_simp

section \<open>Changelist.getCategory for the owner\<close>

text \<open>
  Claim C3. For the owner the category is the first match of: \<open>READY_TO_SUBMIT\<close> if
  submittable with no unresolved comment, \<open>WIP\<close> if work in progress, \<open>NO_REVIEWERS\<close>
  if the reviewer list is empty, \<open>OUTGOING_NEEDS_ATTENTION\<close> if a comment is
  unresolved, \<open>STALE\<close> if the change is stale, else \<open>NONE\<close>. A submittable change
  with no unresolved comment is \<open>READY_TO_SUBMIT\<close> whatever its work-in-progress flag.
\<close>

theorem getCategory_owner:
  assumes "cache_ok cl" and "isOwner cl user"
  shows "fst (getCategory now user cl) =
           Inr (if submittable (json' cl) \<and> unresolved_comment_count (json' cl) = 0
                  then READY_TO_SUBMIT
                else if work_in_progress (json' cl) then WIP
                else if reviewer_list (json' cl) = [] then NO_REVIEWERS
                else if unresolved_comment_count (json' cl) \<noteq> 0
                  then OUTGOING_NEEDS_ATTENTION
                else if stale_at now (json' cl) then STALE
                else NONE) \<and>
         (submittable (json' cl) \<and> unresolved_comment_count (json' cl) = 0 \<longrightarrow>
            (\<forall>w. fst (getCategory now user
                        (cl\<lparr>json' := (json' cl)\<lparr>work_in_progress := w\<rparr>\<rparr>)) =
                  Inr READY_TO_SUBMIT))"
proof
  from assms show "fst (getCategory now user cl) =
           Inr (if submittable (json' cl) \<and> unresolved_comment_count (json' cl) = 0
                  then READY_TO_SUBMIT
                else if work_in_progress (json' cl) then WIP
                else if reviewer_list (json' cl) = [] then NO_REVIEWERS
                else if unresolved_comment_count (json' cl) \<noteq> 0
                  then OUTGOING_NEEDS_ATTENTION
                else if stale_at now (json' cl) then STALE
                else NONE)"
    by (simp add: getCategory_fst category_of_def isOwner_def)
next
  from assms(2)
  show "submittable (json' cl) \<and> unresolved_comment_count (json' cl) = 0 \<longrightarrow>
            (\<forall>w. fst (getCategory now user
                        (cl\<lparr>json' := (json' cl)\<lparr>work_in_progress := w\<rparr>\<rparr>)) =
                  Inr READY_TO_SUBMIT)"
    by (simp add: getCategory_def isOwner_def isSubmittable_def hasUnresolvedComments_def)
qed

text \<open>
  The submittable work-in-progress change is \<open>READY_TO_SUBMIT\<close>; the example change
  is \<open>STALE\<close> once its message is more than a day old.
\<close>

theorem getCategory_owner_witness:
  "cache_ok submittable_wip_cl \<and> isOwner submittable_wip_cl alice \<and>
   work_in_progress (json' submittable_wip_cl) \<and>
   fst (getCategory 0 alice submittable_wip_cl) = Inr READY_TO_SUBMIT \<and>
   cache_ok example_cl \<and> isOwner example_cl alice \<and>
   fst (getCategory 86400006 alice example_cl) = Inr STALE"
proof -
  have h1: "cache_ok submittable_wip_cl" by (simp add: submittable_wip_cl_def cache_ok_wrap)
  have h2: "isOwner submittable_wip_cl alice" by code_simp
  have h3: "work_in_progress (json' submittable_wip_cl)" by code_simp
  have h4: "submittable (json' submittable_wip_cl) \<and>
      unresolved_comment_count (json' submittable_wip_cl) = 0" by code_simp
  have k1: "cache_ok example_cl" by (simp add: example_cl_def cache_ok_wrap)
  have k2: "isOwner example_cl alice" by code_simp
  have k3: "\<not> submittable (json' example_cl)" "\<not> work_in_progress (json' example_cl)"
    "reviewer_list (json' example_cl) \<noteq> []" "unresolved_comment_count (json' example_cl) = 0"
    "stale_at 86400006 (json' example_cl)" by code_simp+
  from getCategory_owner [OF h1 h2, of 0] h4
  have "fst (getCategory 0 alice submittable_wip_cl) = Inr READY_TO_SUBMIT" by simp
  moreover from getCategory_owner [OF k1 k2, of 86400006] k3
  have "fst (getCategory 86400006 alice example_cl) = Inr STALE" by simp
  ultimately show ?thesis using h1 h2 h3 k1 k2 by simp
qed

section \<open>Changelist.getCategory and the star markers\<close>

text \<open>
  Claim C4. The claim selects, among the labels of the form \<^verbatim>\<open>reviewed/<n>\<close> and
  \<^verbatim>\<open>unreviewed/<n>\<close>, the marker with the highest revision number. With the stars
  \<^verbatim>\<open>reviewed/3\<close>, \<^verbatim>\<open>unreviewed/x\<close>, \<^verbatim>\<open>unreviewed/2\<close> and patch set 3 current, the
  markers are those for 3 and 2 and the highest is \<^verbatim>\<open>reviewed/3\<close>, so the claim
  answers \<open>NONE\<close>. In the loop \<^verbatim>\<open>parseInt\<close> reads \<^verbatim>\<open>NaN\<close> from \<open>x\<close>, \<^verbatim>\<open>NaN <= 3\<close> is
  false and the label replaces the maximum; the loop ends on 2 and the fallback
  answers \<open>INCOMING_NEEDS_ATTENTION\<close>.
\<close>

theorem malformed_star_hides_marker:
  "\<not> isOwner poisoned_cl carol \<and> \<not> hasReviewed poisoned_cl carol \<and>
   getStars poisoned_cl = [''reviewed/3'', ''unreviewed/x'', ''unreviewed/2''] \<and>
   markers (getStars poisoned_cl) = [(True, 3), (False, 2)] \<and>
   highest_marker (markers (getStars poisoned_cl)) = Some (True, 3) \<and>
   Revision_getNumber (fst (getCurrentRevision poisoned_cl)) = Inr 3 \<and>
   parseInt ''x'' = NaN \<and>
   fold star_step (getStars poisoned_cl) (Num (- 1), None) = (Num 2, Some False) \<and>
   fst (getCategory 0 carol poisoned_cl) = Inr INCOMING_NEEDS_ATTENTION"
  by code_simp

section \<open>Changelist.getCategory without a marker for the current revision\<close>




section \<open>Changelist.isStale\<close>



section \<open>Changelist.getCategory, the clock and the caches\<close>

text \<open>
  Claim C7, as the code has it. The category depends on the JSON of the change, on the
  user and, for the owner, on the clock that \<^verbatim>\<open>isStale\<close> reads. On an object whose
  caches are coherent, a second call at the same clock reading returns what the first
  returned, a fresh object on the same JSON returns the same, and for a user who is
  not the owner a second call at any later reading returns the same.
\<close>

theorem getCategory_repeat:
  assumes "cache_ok cl"
  shows "fst (getCategory now user (snd (getCategory now user cl))) =
           fst (getCategory now user cl) \<and>
         fst (getCategory now user (Changelist_wrap (host' cl) (json' cl))) =
           fst (getCategory now user cl) \<and>
         (\<not> isOwner cl user \<longrightarrow>
            fst (getCategory later user (snd (getCategory now user cl))) =
              fst (getCategory now user cl))"
proof -
  have ok': "cache_ok (snd (getCategory now user cl))" by (rule getCategory_ok [OF assms])
  have "\<not> isOwner cl user \<Longrightarrow>
      category_of later user (json' cl) = category_of now user (json' cl)"
    by (rule category_of_not_owner) (simp add: isOwner_def)
  then show ?thesis
    by (simp add: getCategory_fst [OF ok'] getCategory_fst [OF assms]
        getCategory_fst [OF cache_ok_wrap] getCategory_json json_wrap)
qed

theorem getCategory_repeat_witness:
  "cache_ok example_cl \<and> \<not> isOwner example_cl carol \<and>
   fst (getCategory 0 carol example_cl) = Inr INCOMING_NEEDS_ATTENTION \<and>
   fst (getCategory 86400006 carol (snd (getCategory 0 carol example_cl))) =
     Inr INCOMING_NEEDS_ATTENTION"
proof -
  have h1: "cache_ok example_cl" by (simp add: example_cl_def cache_ok_wrap)
  have h2: "\<not> isOwner example_cl carol" by code_simp
  have e: "fst (getCategory 0 carol example_cl) = Inr INCOMING_NEEDS_ATTENTION" by code_simp
  from getCategory_repeat [OF h1, of 0 carol 86400006] h1 h2 e show ?thesis by simp
qed

text \<open>
  Claim C7 as stated has the category depend on nothing but the change and the user.
  The owner's call on the example change returns \<open>NONE\<close> at 86400005 and the next
  call on the same object returns \<open>STALE\<close> at 86400006.
\<close>

theorem clock_changes_category:
  "fst (getCategory 86400005 alice example_cl) = Inr NONE \<and>
   fst (getCategory 86400006 alice (snd (getCategory 86400005 alice example_cl))) = Inr STALE"
  by code_simp

section \<open>The categories of a user who is not the owner\<close>

text \<open>
  Claim C10. For a user who is not the owner \<^verbatim>\<open>getCategory\<close> returns only \<open>NONE\<close>
  or \<open>INCOMING_NEEDS_ATTENTION\<close>; \<open>STALE\<close>, \<open>WIP\<close>, \<open>NO_REVIEWERS\<close>,
  \<open>OUTGOING_NEEDS_ATTENTION\<close> and \<open>READY_TO_SUBMIT\<close> are returned to the owner only.
\<close>

theorem getCategory_not_owner:
  assumes "fst (getCategory now user cl) = Inr c"
  shows "(\<not> isOwner cl user \<longrightarrow> c = NONE \<or> c = INCOMING_NEEDS_ATTENTION) \<and>
         (c = STALE \<or> c = WIP \<or> c = NO_REVIEWERS \<or> c = OUTGOING_NEEDS_ATTENTION \<or>
          c = READY_TO_SUBMIT \<longrightarrow> isOwner cl user)"
proof -
  have "\<not> isOwner cl user \<Longrightarrow> c = NONE \<or> c = INCOMING_NEEDS_ATTENTION"
    using assms
    by (auto simp: getCategory_def Let_def split_beta split: if_splits sum.splits bool.splits)
  then show ?thesis by auto
qed

theorem getCategory_not_owner_witness:
  "fst (getCategory 0 carol example_cl) = Inr INCOMING_NEEDS_ATTENTION \<and>
   \<not> isOwner example_cl carol \<and>
   fst (getCategory 86400006 alice example_cl) = Inr STALE \<and> isOwner example_cl alice"
proof -
  have h1: "fst (getCategory 0 carol example_cl) = Inr INCOMING_NEEDS_ATTENTION"
    by code_simp
  have h2: "fst (getCategory 86400006 alice example_cl) = Inr STALE" by code_simp
  have h3: "\<not> isOwner example_cl carol" by code_simp
  from getCategory_not_owner [OF h1] getCategory_not_owner [OF h2] h1 h2 h3
  show ?thesis by simp
qed

section \<open>Description.parse\<close>

text \<open>
  Claim C8. For every text, with its lines counted from 0: the attributes returned
  are the matches of the lines from some line \<open>k\<close> on, in the order of the lines,
  where \<open>k\<close> is at least 1 (line 0 is never peeled) and every line from \<open>k\<close> on is
  empty or an attribute line; the body is the first \<open>n\<close> lines joined, with
  \<open>1 \<le> n \<le> k\<close>, so it starts with line 0.
\<close>

theorem Description_parse_spec:
  "\<exists>k n. 1 \<le> n \<and> n \<le> k \<and> k \<le> length (js_split CHR 0x0A text) \<and>
     fst (Description_parse text) = js_join CHR 0x0A (take n (js_split CHR 0x0A text)) \<and>
     snd (Description_parse text) =
       List.map_filter ATTRIBUTE_RE_exec (drop k (js_split CHR 0x0A text)) \<and>
     list_all (\<lambda>l. l = '''' \<or> ATTRIBUTE_RE_exec l \<noteq> None) (drop k (js_split CHR 0x0A text)) \<and>
     prefix (hd (js_split CHR 0x0A text)) (fst (Description_parse text))"
proof -
  define lines where "lines = js_split CHR 0x0A text"
  have ne: "lines \<noteq> []" by (simp add: lines_def js_split_not_Nil)
  define n0 where "n0 = length lines - 1"
  have n0: "n0 < length lines" "int (length lines) - 1 = int n0"
    using ne by (cases lines; simp add: n0_def)+
  from peel_empty_nat [OF n0(1)] obtain k1 where k1: "k1 \<le> n0"
    "peel_empty lines (int n0) = int k1" "\<forall>i. k1 < i \<and> i \<le> n0 \<longrightarrow> lines ! i = ''''"
    by blast
  have k1_lt: "k1 < length lines" using k1(1) n0(1) by simp
  from peel_attributes_nat [OF k1_lt, of "[]"] obtain k2 where k2: "k2 \<le> k1"
    "peel_attributes lines (int k1) [] =
      (int k2, rev (List.map_filter ATTRIBUTE_RE_exec (drop (Suc k2) (take (Suc k1) lines))))"
    "list_all (\<lambda>l. l = '''' \<or> ATTRIBUTE_RE_exec l \<noteq> None) (drop (Suc k2) (take (Suc k1) lines))"
    by auto
  have k2_lt: "k2 < length lines" using k2(1) k1_lt by simp
  from peel_empty_nat [OF k2_lt] obtain k3 where k3: "k3 \<le> k2"
    "peel_empty lines (int k2) = int k3" by blast
  have parse: "Description_parse text =
      (js_join CHR 0x0A (take (Suc k3) lines),
       List.map_filter ATTRIBUTE_RE_exec (drop (Suc k2) (take (Suc k1) lines)))"
    by (simp add: Description_parse_def Let_def lines_def [symmetric] n0(2) k1(2) k2(2) k3(2)
        js_splice0_def nat_add_distrib)
  have blank: "\<forall>l \<in> set (drop (Suc k1) lines). l = ''''"
  proof
    fix l assume "l \<in> set (drop (Suc k1) lines)"
    then obtain j where j: "j < length lines - Suc k1" "l = lines ! (Suc k1 + j)"
      by (auto simp: in_set_conv_nth)
    then have "k1 < Suc k1 + j \<and> Suc k1 + j \<le> n0" by (auto simp: n0_def)
    with k1(3) j(2) show "l = ''''" by blast
  qed
  have split: "drop (Suc k2) lines = drop (Suc k2) (take (Suc k1) lines) @ drop (Suc k1) lines"
  proof -
    have "drop (Suc k2) lines = drop (Suc k2) (take (Suc k1) lines @ drop (Suc k1) lines)"
      by simp
    also have "\<dots> = drop (Suc k2) (take (Suc k1) lines) @ drop (Suc k1) lines"
      using k2(1) k1_lt by (subst drop_append) simp
    finally show ?thesis .
  qed
  have tail: "List.map_filter ATTRIBUTE_RE_exec (drop (Suc k1) lines) = []"
    using blank by (intro map_filter_all_None) (auto simp: ATTRIBUTE_RE_exec_empty)
  have attrs: "List.map_filter ATTRIBUTE_RE_exec (drop (Suc k2) (take (Suc k1) lines)) =
      List.map_filter ATTRIBUTE_RE_exec (drop (Suc k2) lines)"
    by (simp add: split map_filter_append tail)
  have pre: "prefix (hd lines) (js_join CHR 0x0A (take (Suc k3) lines))"
    by (rule js_join_take_prefix) (simp_all add: ne)
  have peeled: "list_all (\<lambda>l. l = '''' \<or> ATTRIBUTE_RE_exec l \<noteq> None) (drop (Suc k2) lines)"
    using k2(3) blank by (auto simp: split list_all_iff)
  show ?thesis
    unfolding lines_def [symmetric]
    using k3(1) k2_lt pre peeled
    by (intro exI [of _ "Suc k2"] exI [of _ "Suc k3"]) (simp add: parse attrs)
qed

text \<open>
  A description with two attributes, and one that is a single attribute line, which
  stays the body.
\<close>

theorem Description_parse_spec_witness:
  "Description_parse example_description = (''Fix it'', [(''Bug'', '' 12''), (''R'', ''me'')]) \<and>
   Description_parse ''Bug: 12'' = (''Bug: 12'', []) \<and>
   (\<exists>k n. 1 \<le> n \<and> n \<le> k \<and> k \<le> length (js_split CHR 0x0A example_description) \<and>
     fst (Description_parse example_description) =
       js_join CHR 0x0A (take n (js_split CHR 0x0A example_description)) \<and>
     snd (Description_parse example_description) =
       List.map_filter ATTRIBUTE_RE_exec (drop k (js_split CHR 0x0A example_description)) \<and>
     list_all (\<lambda>l. l = '''' \<or> ATTRIBUTE_RE_exec l \<noteq> None)
       (drop k (js_split CHR 0x0A example_description)) \<and>
     prefix (hd (js_split CHR 0x0A example_description))
       (fst (Description_parse example_description)))"
proof -
  have e1: "Description_parse example_description =
      (''Fix it'', [(''Bug'', '' 12''), (''R'', ''me'')])" by code_simp
  have e2: "Description_parse ''Bug: 12'' = (''Bug: 12'', [])" by code_simp
  from e1 e2 Description_parse_spec [of example_description] show ?thesis by blast
qed

section \<open>SearchResult.getCategoryMap and SearchResults.getCategoryMap\<close>

text \<open>
  Claim C9. On a heap of objects with coherent caches, for queries on none of whose
  changelists \<^verbatim>\<open>getCategory\<close> throws: the map of one query has, for each category,
  the bucket of that category (the changelists of the query for which \<^verbatim>\<open>getCategory\<close>
  returns that category to the query's user, each once, in first-seen order) and no
  key for an empty bucket; the map of a sequence of queries has, for each category,
  the buckets of the queries one after the other, repetitions across queries kept.
\<close>

theorem getCategoryMap_spec:
  assumes "\<forall>r. cache_ok (h r)"
    and "\<forall>sr \<in> set (results' srs). \<forall>cl \<in> set (data' sr).
           fst (getCategory now (user' sr) (h cl)) \<noteq> Inl TypeError"
  shows "(\<forall>sr \<in> set (results' srs).
            \<exists>m. fst (SearchResult_getCategoryMap now sr h) = Inr m \<and>
                (\<forall>c. Map_get m c = nonempty (bucket now h sr c) \<and>
                     distinct (bucket now h sr c))) \<and>
         (\<exists>m. fst (SearchResults_getCategoryMap now srs h) = Inr m \<and>
              (\<forall>c. Map_get m c =
                 nonempty (concat (map (\<lambda>sr. bucket now h sr c) (results' srs)))))"
proof
  have ok: "heap_ok h" using assms(1) by (simp add: heap_ok_def)
  have no_error: "\<forall>sr \<in> set (results' srs). \<forall>cl \<in> set (data' sr).
      category_of now (user' sr) (json' (h cl)) \<noteq> Inl TypeError"
    using assms(2) getCategory_no_error [OF ok] by blast
  show "\<forall>sr \<in> set (results' srs).
            \<exists>m. fst (SearchResult_getCategoryMap now sr h) = Inr m \<and>
                (\<forall>c. Map_get m c = nonempty (bucket now h sr c) \<and>
                     distinct (bucket now h sr c))"
  proof
    fix sr assume "sr \<in> set (results' srs)"
    with no_error have
      "\<forall>cl \<in> set (data' sr). category_of now (user' sr) (json' (h cl)) \<noteq> Inl TypeError"
      by blast
    from SearchResult_getCategoryMap_spec [OF ok this] obtain m h' where
      "SearchResult_getCategoryMap now sr h = (Inr m, h')" "map_ok m"
      "\<forall>c. get0 m c = json_bucket now h sr c" by blast
    then show "\<exists>m. fst (SearchResult_getCategoryMap now sr h) = Inr m \<and>
                (\<forall>c. Map_get m c = nonempty (bucket now h sr c) \<and>
                     distinct (bucket now h sr c))"
      by (auto simp: Map_get_nonempty bucket_json_bucket [OF ok] json_bucket_def
          distinct_first_seen)
  qed
  from results_forEach_spec [OF ok map_ok_Nil no_error] obtain m h' where
    "results_forEach now (results' srs) [] h = (Inr m, h')" "map_ok m"
    "\<forall>c. get0 m c = get0 [] c @ concat (map (\<lambda>sr. json_bucket now h sr c) (results' srs))"
    by blast
  then show "\<exists>m. fst (SearchResults_getCategoryMap now srs h) = Inr m \<and>
              (\<forall>c. Map_get m c =
                 nonempty (concat (map (\<lambda>sr. bucket now h sr c) (results' srs))))"
    by (auto simp: SearchResults_getCategoryMap_def Map_get_nonempty get0_Nil
        bucket_json_bucket [OF ok])
qed

text \<open>
  \<open>carol\<close>'s query lists changelist 0 twice and gets it once; the same query run
  twice around the owner's gets every bucket twice.
\<close>

theorem getCategoryMap_spec_witness:
  "fst (SearchResult_getCategoryMap 86400020 review_query example_heap) =
     Inr [(INCOMING_NEEDS_ATTENTION, [0, 3]), (NONE, [1, 2])] \<and>
   (\<exists>m. fst (SearchResults_getCategoryMap 86400020
              \<lparr>results' = [review_query, owner_query, review_query]\<rparr> example_heap) = Inr m \<and>
        Map_get m INCOMING_NEEDS_ATTENTION = Some [0, 3, 0, 3] \<and>
        Map_get m NONE = Some [1, 2, 1, 2] \<and>
        Map_get m STALE = Some [3, 0] \<and>
        Map_get m WIP = None)"
proof -
  have h1: "\<forall>r. cache_ok (example_heap r)"
    by (simp add: example_heap_def example_cl_def answered_cl_def starred_cl_def bot_cl_def
        cache_ok_wrap)
  have "list_all (\<lambda>sr. list_all
          (\<lambda>cl. fst (getCategory 86400020 (user' sr) (example_heap cl)) \<noteq> Inl TypeError)
          (data' sr))
        (results' \<lparr>results' = [review_query, owner_query, review_query]\<rparr>)"
    by code_simp
  then have h2: "\<forall>sr \<in> set (results' \<lparr>results' = [review_query, owner_query, review_query]\<rparr>).
      \<forall>cl \<in> set (data' sr).
        fst (getCategory 86400020 (user' sr) (example_heap cl)) \<noteq> Inl TypeError"
    by (simp only: list_all_iff)
  have e1: "fst (SearchResult_getCategoryMap 86400020 review_query example_heap) =
     Inr [(INCOMING_NEEDS_ATTENTION, [0, 3]), (NONE, [1, 2])]" by code_simp
  have e2: "nonempty (concat (map (\<lambda>sr. bucket 86400020 example_heap sr INCOMING_NEEDS_ATTENTION)
        (results' \<lparr>results' = [review_query, owner_query, review_query]\<rparr>))) =
      Some [0, 3, 0, 3]" by code_simp
  have e3: "nonempty (concat (map (\<lambda>sr. bucket 86400020 example_heap sr NONE)
        (results' \<lparr>results' = [review_query, owner_query, review_query]\<rparr>))) =
      Some [1, 2, 1, 2]" by code_simp
  have e4: "nonempty (concat (map (\<lambda>sr. bucket 86400020 example_heap sr STALE)
        (results' \<lparr>results' = [review_query, owner_query, review_query]\<rparr>))) =
      Some [3, 0]" by code_simp
  have e5: "nonempty (concat (map (\<lambda>sr. bucket 86400020 example_heap sr WIP)
        (results' \<lparr>results' = [review_query, owner_query, review_query]\<rparr>))) = None"
    by code_simp
  from getCategoryMap_spec [OF h1 h2] obtain m where
    m: "fst (SearchResults_getCategoryMap 86400020
              \<lparr>results' = [review_query, owner_query, review_query]\<rparr> example_heap) = Inr m"
      "\<forall>c. Map_get m c =
         nonempty (concat (map (\<lambda>sr. bucket 86400020 example_heap sr c)
           (results' \<lparr>results' = [review_query, owner_query, review_query]\<rparr>)))"
    by blast
  from m(2) e2 e3 e4 e5 have "Map_get m INCOMING_NEEDS_ATTENTION = Some [0, 3, 0, 3]"
    "Map_get m NONE = Some [1, 2, 1, 2]" "Map_get m STALE = Some [3, 0]" "Map_get m WIP = None"
    by simp_all
  with m(1) e1 show ?thesis by blast
qed

end
